theory Spec2Isabelle
  imports Main
begin

section \<open>Backbone.Courier: the message bubbling of \<open>view.spawn\<close>\<close>

text \<open>
  The development embeds \<^verbatim>\<open>Backbone.Courier.add\<close> of \<^verbatim>\<open>backbone.courier.js\<close>: the public
  function \<^verbatim>\<open>view.spawn\<close>, the private function \<^verbatim>\<open>getValueOfBestMatchingHashEntry\<close> and
  the default \<^verbatim>\<open>_getChildViewNamed\<close>.

  Conventions of the embedding.
  \<^item> A view object is referred to by a \<open>view_id\<close>; the \<open>world\<close> maps every reference to the
    properties of the view that \<^verbatim>\<open>spawn\<close> reads. Object identity (\<^verbatim>\<open>!==\<close> on views) is
    equality of references.
  \<^item> A \<open>char\<close> stands for a UTF-16 code unit below 256.
  \<^item> User supplied functions (handlers, a computed \<^verbatim>\<open>passMessages\<close>, an overriding
    \<^verbatim>\<open>_getChildViewNamed\<close>) are functions of their arguments that return a value or throw.
    They do not change the view tree, the tables or the message while a message bubbles.
    What the listeners of \<^verbatim>\<open>this.trigger\<close> do is not part of the embedding; the call is
    recorded as an event.
  \<^item> The name of a message is a string, or undefined in a message object.
  \<^item> Every \<^verbatim>\<open>throw\<close> of the source is a value of type \<open>error\<close>; a call of \<^verbatim>\<open>spawn\<close>
    that does not return (a cyclic \<^verbatim>\<open>_getParentView\<close>) is the value \<open>None\<close>.
  \<^item> The functions of Underscore (\<^verbatim>\<open>_.isObject\<close>, \<^verbatim>\<open>_.isUndefined\<close>, \<^verbatim>\<open>_.isBoolean\<close>,
    \<^verbatim>\<open>_.isArray\<close>, \<^verbatim>\<open>_.result\<close>, \<^verbatim>\<open>_.contains\<close>, \<^verbatim>\<open>_.sortBy\<close>) and the regular
    expressions of JavaScript are written out where the source calls them.
\<close>

subsection \<open>Values, errors and views\<close>

type_synonym view_id = nat

text \<open>
  JavaScript values as far as \<^verbatim>\<open>spawn\<close> inspects them. \<open>JObj\<close> also stands for any other
  object that is not an array.
\<close>

datatype jsval =
    JUndefined
  | JNull
  | JBool bool
  | JNum int
  | JStr string
  | JArr "jsval list"
  | JObj "(string \<times> jsval) list"

datatype error =
    UndefinedMessageName
    \<comment> \<open>\<^verbatim>\<open>throw new Error( "Undefined message name." )\<close>\<close>
  | MethodDoesNotExist string
    \<comment> \<open>\<^verbatim>\<open>throw new Error( "Method \"" + value + "\" does not exist" )\<close>\<close>
  | PassMessagesTypeError
    \<comment> \<open>\<^verbatim>\<open>throw new TypeError( "passMessages should be boolean or an array." )\<close>\<close>
  | KeyMatchTypeError
    \<comment> \<open>\<^verbatim>\<open>match[ 1 ]\<close> where \<^verbatim>\<open>key.match( delegateEventSplitter )\<close> is \<^verbatim>\<open>null\<close>\<close>
  | NotCallableTypeError
    \<comment> \<open>\<^verbatim>\<open>method.call\<close> where \<^verbatim>\<open>method\<close> is truthy and not a function\<close>
  | RegExpNotModelled
    \<comment> \<open>the event name holds a character other than \<^verbatim>\<open>*\<close> that is special in a
        regular expression\<close>
  | UserError string
    \<comment> \<open>an exception thrown by a user supplied function\<close>

text \<open>
  A handler is called as \<^verbatim>\<open>method.call( curParent, message.data, message.source, message.name )\<close>:
  its arguments are \<^verbatim>\<open>this\<close>, the data, the source and the message name.
\<close>

type_synonym handler = "view_id \<Rightarrow> jsval \<Rightarrow> view_id \<Rightarrow> string \<Rightarrow> error + jsval"

text \<open>
  The value of an entry of \<^verbatim>\<open>onMessages\<close>: a function, \<^verbatim>\<open>null\<close>, or any other value, which
  \<^verbatim>\<open>curParent[ value ]\<close> uses as a property name.
\<close>

datatype hash_value =
    HFunction handler
  | HNull
  | HMethodName string

text \<open>What \<^verbatim>\<open>curParent[ value ]\<close> finds: a falsy value, a function, or another truthy value.\<close>

datatype member = Absent | Callable handler | NotCallable

text \<open>The property \<^verbatim>\<open>passMessages\<close>: a value, or a function that \<^verbatim>\<open>_.result\<close> calls.\<close>

datatype pass_property =
    PValue jsval
  | PFunction "error + jsval"

record view =
  onMessages :: "(string \<times> hash_value) list option"
    \<comment> \<open>\<open>None\<close> when \<^verbatim>\<open>_.isObject( view.onMessages )\<close> is false; otherwise the entries in
        the order in which \<^verbatim>\<open>for( var key in hash )\<close> enumerates them\<close>
  passMessages :: pass_property
  parentView :: "view_id option"
    \<comment> \<open>what \<^verbatim>\<open>view._getParentView()\<close> returns; \<open>None\<close> for a falsy value\<close>
  subviews :: "(string \<Rightarrow> view_id option) option"
    \<comment> \<open>\<open>None\<close> when \<^verbatim>\<open>_.isObject( this.subviews )\<close> is false\<close>
  childViewNamed :: "(string \<Rightarrow> error + view_id option) option"
    \<comment> \<open>a \<^verbatim>\<open>_getChildViewNamed\<close> supplied by the user, if any\<close>
  members :: "string \<Rightarrow> member"

type_synonym world = "view_id \<Rightarrow> view"

record message =
  name :: string
  data :: jsval
  source :: view_id

text \<open>
  \<^verbatim>\<open>view._getChildViewNamed\<close>: the user's function when there is one, otherwise
  \<^verbatim>\<open>if( ! _.isObject( this.subviews ) ) return null; return this.subviews[ childViewName ];\<close>
\<close>

definition getChildViewNamed :: "view \<Rightarrow> string \<Rightarrow> error + view_id option" where
  "getChildViewNamed v childViewName =
     (case childViewNamed v of
        Some f \<Rightarrow> f childViewName
      | None \<Rightarrow>
         (case subviews v of
            None \<Rightarrow> Inr None
          | Some sv \<Rightarrow> Inr (sv childViewName)))"

subsection \<open>Keys of the hash\<close>

text \<open>
  The character classes of the regular expressions: \<^verbatim>\<open>\s\<close> (white space, which includes
  the line terminators), the line terminators that \<^verbatim>\<open>.\<close> does not match, and \<^verbatim>\<open>\w\<close>.
\<close>

definition js_whitespace :: "char \<Rightarrow> bool" where
  "js_whitespace c =
     (c = CHR 0x09 \<or> c = CHR 0x0A \<or> c = CHR 0x0B \<or> c = CHR 0x0C \<or> c = CHR 0x0D \<or>
      c = CHR 0x20 \<or> c = CHR 0xA0)"

definition js_line_terminator :: "char \<Rightarrow> bool" where
  "js_line_terminator c = (c = CHR 0x0A \<or> c = CHR 0x0D)"

definition js_word_char :: "char \<Rightarrow> bool" where
  "js_word_char c =
     (let n = (of_char c :: nat)
      in (48 \<le> n \<and> n \<le> 57) \<or> (65 \<le> n \<and> n \<le> 90) \<or> n = 95 \<or> (97 \<le> n \<and> n \<le> 122))"

text \<open>
  \<^verbatim>\<open>key.match( /^(\S+)\s*(.*)$/ )\<close>. The first group is the longest run of characters
  that are not white space at the start of the key, and it must not be empty. After the
  white space that follows it, the second group must reach the end of the key, which it
  does when no line terminator is left. Giving back characters of the first group or of
  the white space cannot help, since the second group would still have to cross the same
  line terminator. \<open>None\<close> is \<^verbatim>\<open>null\<close>.
\<close>

definition delegateEventSplitter :: "string \<Rightarrow> (string \<times> string) option" where
  "delegateEventSplitter key =
     (let first = takeWhile (\<lambda>c. \<not> js_whitespace c) key;
          second = dropWhile js_whitespace (dropWhile (\<lambda>c. \<not> js_whitespace c) key)
      in if first = [] \<or> list_ex js_line_terminator second then None
         else Some (first, second))"

text \<open>
  \<^verbatim>\<open>new RegExp( '^' + eventName.replace( /\*/g, "[\\w]*" ) + '$' ).test( message.name )\<close>.
  Every \<^verbatim>\<open>*\<close> of the event name becomes \<^verbatim>\<open>[\w]*\<close>; every other character stays as it
  is in the source of the regular expression. The embedding covers the event names whose
  other characters stand for themselves there; for an event name with another special
  character of regular expressions the result is \<open>RegExpNotModelled\<close>.
\<close>

definition regexp_special_char :: "char \<Rightarrow> bool" where
  "regexp_special_char c =
     (c = CHR ''^'' \<or> c = CHR ''$'' \<or> c = CHR 0x5C \<or> c = CHR ''.'' \<or> c = CHR ''+'' \<or>
      c = CHR ''?'' \<or> c = CHR ''('' \<or> c = CHR '')'' \<or> c = CHR ''['' \<or> c = CHR '']'' \<or>
      c = CHR ''{'' \<or> c = CHR ''}'' \<or> c = CHR ''|'')"

fun regex_match :: "string \<Rightarrow> string \<Rightarrow> bool" where
  "regex_match [] s = (s = [])"
| "regex_match (p # ps) s =
     (if p = CHR ''*''
      then regex_match ps s \<or>
           (case s of [] \<Rightarrow> False | c # cs \<Rightarrow> js_word_char c \<and> regex_match (p # ps) cs)
      else (case s of [] \<Rightarrow> False | c # cs \<Rightarrow> c = p \<and> regex_match ps cs))"

definition eventNameRegEx_test :: "string \<Rightarrow> string \<Rightarrow> error + bool" where
  "eventNameRegEx_test evName n =
     (if list_ex regexp_special_char evName then Inl RegExpNotModelled
      else Inr (regex_match evName n))"

subsection \<open>\<^verbatim>\<open>getValueOfBestMatchingHashEntry\<close>\<close>

record entry =
  eventName :: string
  subviewName :: string
  hvalue :: hash_value

definition push :: "entry \<Rightarrow> error + entry list \<Rightarrow> error + entry list" where
  "push e r = (case r of Inl err \<Rightarrow> Inl err | Inr es \<Rightarrow> Inr (e # es))"

text \<open>
  The loop \<^verbatim>\<open>for( var key in hash )\<close>: the entries that match the message name and the
  source, in the order of the hash. An exception ends the loop.
\<close>

fun matchingEntries ::
  "view \<Rightarrow> view_id \<Rightarrow> string \<Rightarrow> (string \<times> hash_value) list \<Rightarrow> error + entry list" where
  "matchingEntries v sourceView n [] = Inr []"
| "matchingEntries v sourceView n ((key, hv) # hash) =
     (case delegateEventSplitter key of
        None \<Rightarrow> Inl KeyMatchTypeError
      | Some (evName, subName) \<Rightarrow>
         (case eventNameRegEx_test evName n of
            Inl err \<Rightarrow> Inl err
          | Inr False \<Rightarrow> matchingEntries v sourceView n hash
          | Inr True \<Rightarrow>
             (if subName \<noteq> [] then
                (case getChildViewNamed v subName of
                   Inl err \<Rightarrow> Inl err
                 | Inr child \<Rightarrow>
                    if child \<noteq> Some sourceView then matchingEntries v sourceView n hash
                    else push \<lparr>eventName = evName, subviewName = subName, hvalue = hv\<rparr>
                           (matchingEntries v sourceView n hash))
              else push \<lparr>eventName = evName, subviewName = subName, hvalue = hv\<rparr>
                     (matchingEntries v sourceView n hash))))"

text \<open>
  \<^verbatim>\<open>thisEntry.eventName.replace( "*", "" )\<close>: with a string as its pattern,
  \<^verbatim>\<open>replace\<close> removes the first \<^verbatim>\<open>*\<close> only.
\<close>

definition replace_first_star :: "string \<Rightarrow> string" where
  "replace_first_star s =
     takeWhile (\<lambda>c. c \<noteq> CHR ''*'') s @ drop 1 (dropWhile (\<lambda>c. c \<noteq> CHR ''*'') s)"

text \<open>The function given to \<^verbatim>\<open>_.sortBy\<close>: the negated specificity.\<close>

definition criterion :: "entry \<Rightarrow> int" where
  "criterion thisEntry =
     (let nonWildcardCharactersInEventName = replace_first_star (eventName thisEntry);
          hasSubviewQualifier = (subviewName thisEntry \<noteq> []);
          specificity = (if hasSubviewQualifier then 1000 else 0)
                        + int (length nonWildcardCharactersInEventName)
      in - specificity)"

text \<open>
  The entries after \<^verbatim>\<open>if( matchingEntries.length > 1 ) matchingEntries = _.sortBy( ... )\<close>.
  \<^verbatim>\<open>_.sortBy\<close> of Underscore sorts in ascending order of the criterion and keeps the
  order of entries with equal criteria, as \<open>sort_key\<close> does.
\<close>

definition sortedMatchingEntries ::
  "(string \<times> hash_value) list \<Rightarrow> message \<Rightarrow> view \<Rightarrow> view_id \<Rightarrow> error + entry list" where
  "sortedMatchingEntries hash msg v sourceView =
     (case matchingEntries v sourceView (name msg) hash of
        Inl err \<Rightarrow> Inl err
      | Inr es \<Rightarrow> Inr (if length es > 1 then sort_key criterion es else es))"

text \<open>\<^verbatim>\<open>return matchingEntries.length ? matchingEntries[ 0 ].value : null;\<close>\<close>

definition getValueOfBestMatchingHashEntry ::
  "(string \<times> hash_value) list \<Rightarrow> message \<Rightarrow> view \<Rightarrow> view_id \<Rightarrow> error + hash_value" where
  "getValueOfBestMatchingHashEntry hash msg v sourceView =
     (case sortedMatchingEntries hash msg v sourceView of
        Inl err \<Rightarrow> Inl err
      | Inr [] \<Rightarrow> Inr HNull
      | Inr (e # es) \<Rightarrow> Inr (hvalue e))"

subsection \<open>\<^verbatim>\<open>view.spawn\<close>\<close>

text \<open>
  What a call of \<^verbatim>\<open>spawn\<close> does that can be seen from outside: the call of
  \<^verbatim>\<open>this.trigger\<close>, each search of an \<^verbatim>\<open>onMessages\<close> hash, and each call of a handler with
  \<^verbatim>\<open>this\<close>, the data, the source and the message name.
\<close>

datatype event =
    Triggered view_id string jsval
  | Consulted view_id
  | Invoked view_id jsval view_id string

datatype outcome = Returned jsval | Threw error

datatype step = Return jsval | Throw error | Decided bool

definition isRoundTrip :: "string \<Rightarrow> bool" where
  "isRoundTrip n = (n \<noteq> [] \<and> last n = CHR ''!'')"

text \<open>
  \<^verbatim>\<open>var method = value; if( ! _.isFunction( method ) ) method = curParent[ value ];
  if( ! method ) throw new Error( ... );\<close>
\<close>

definition resolve_method :: "view \<Rightarrow> hash_value \<Rightarrow> error + handler" where
  "resolve_method v hv =
     (case hv of
        HFunction f \<Rightarrow> Inr f
      | HMethodName m \<Rightarrow>
         (case members v m of
            Absent \<Rightarrow> Inl (MethodDoesNotExist m)
          | Callable f \<Rightarrow> Inr f
          | NotCallable \<Rightarrow> Inl NotCallableTypeError)
      | HNull \<Rightarrow>
         (case members v ''null'' of
            Absent \<Rightarrow> Inl (MethodDoesNotExist ''null'')
          | Callable f \<Rightarrow> Inr f
          | NotCallable \<Rightarrow> Inl NotCallableTypeError))"

text \<open>
  The first part of the loop body, \<^verbatim>\<open>if( _.isObject( curParent.onMessages ) ) { ... }\<close>:
  the events, and \<open>Some\<close> step when the body ends there with a \<^verbatim>\<open>return\<close> or a \<^verbatim>\<open>throw\<close>.
\<close>

definition handler_stage ::
  "world \<Rightarrow> message \<Rightarrow> bool \<Rightarrow> view_id \<Rightarrow> view_id \<Rightarrow> event list \<times> step option" where
  "handler_stage w msg isRoundTripMessage curChild curParent =
     (case onMessages (w curParent) of
        None \<Rightarrow> ([], None)
      | Some hash \<Rightarrow>
         (case getValueOfBestMatchingHashEntry hash msg (w curParent) curChild of
            Inl err \<Rightarrow> ([Consulted curParent], Some (Throw err))
          | Inr HNull \<Rightarrow> ([Consulted curParent], None)
          | Inr hv \<Rightarrow>
             (case resolve_method (w curParent) hv of
                Inl err \<Rightarrow> ([Consulted curParent], Some (Throw err))
              | Inr method \<Rightarrow>
                 (case method curParent (data msg) (source msg) (name msg) of
                    Inl err \<Rightarrow>
                      ([Consulted curParent,
                        Invoked curParent (data msg) (source msg) (name msg)],
                       Some (Throw err))
                  | Inr returnValue \<Rightarrow>
                      ([Consulted curParent,
                        Invoked curParent (data msg) (source msg) (name msg)],
                       if isRoundTripMessage then Some (Return returnValue) else None)))))"

text \<open>\<^verbatim>\<open>_.result( curParent, "passMessages" )\<close>\<close>

definition result_passMessages :: "view \<Rightarrow> error + jsval" where
  "result_passMessages v = (case passMessages v of PValue x \<Rightarrow> Inr x | PFunction r \<Rightarrow> r)"

text \<open>The tests of Underscore that the loop body uses, and \<^verbatim>\<open>_.contains\<close>, which compares with \<^verbatim>\<open>===\<close>.\<close>

definition isUndefined :: "jsval \<Rightarrow> bool" where
  "isUndefined x = (case x of JUndefined \<Rightarrow> True | _ \<Rightarrow> False)"

definition isBoolean :: "jsval \<Rightarrow> bool" where
  "isBoolean x = (case x of JBool _ \<Rightarrow> True | _ \<Rightarrow> False)"

definition isArray :: "jsval \<Rightarrow> bool" where
  "isArray x = (case x of JArr _ \<Rightarrow> True | _ \<Rightarrow> False)"

definition contains :: "jsval \<Rightarrow> jsval \<Rightarrow> bool" where
  "contains obj target = (case obj of JArr xs \<Rightarrow> target \<in> set xs | _ \<Rightarrow> False)"

text \<open>
  The second part of the loop body, \<^verbatim>\<open>if( isRoundTripMessage ) { ... } else { ... }\<close>: the
  value of \<^verbatim>\<open>messageShouldBePassed\<close> after it. The variable is declared before the loop,
  so an undefined \<^verbatim>\<open>passMessages\<close> leaves it as the previous iteration set it.
\<close>

definition pass_stage :: "world \<Rightarrow> message \<Rightarrow> bool \<Rightarrow> view_id \<Rightarrow> bool \<Rightarrow> error + bool" where
  "pass_stage w msg isRoundTripMessage curParent messageShouldBePassed =
     (if isRoundTripMessage then Inr True
      else
        (case result_passMessages (w curParent) of
           Inl err \<Rightarrow> Inl err
         | Inr pm \<Rightarrow>
            if \<not> isUndefined pm then
              (if isBoolean pm then Inr (pm = JBool True)
               else if isArray pm then Inr (contains pm (JStr (name msg)))
               else Inl PassMessagesTypeError)
            else Inr messageShouldBePassed))"

text \<open>The loop body up to \<^verbatim>\<open>if( ! messageShouldBePassed ) break;\<close>\<close>

definition visit ::
  "world \<Rightarrow> message \<Rightarrow> bool \<Rightarrow> view_id \<Rightarrow> view_id \<Rightarrow> bool \<Rightarrow> event list \<times> step" where
  "visit w msg isRoundTripMessage curChild curParent messageShouldBePassed =
     (case handler_stage w msg isRoundTripMessage curChild curParent of
        (evs, Some s) \<Rightarrow> (evs, s)
      | (evs, None) \<Rightarrow>
         (case pass_stage w msg isRoundTripMessage curParent messageShouldBePassed of
            Inl err \<Rightarrow> (evs, Throw err)
          | Inr b \<Rightarrow> (evs, Decided b)))"

text \<open>
  The loop \<^verbatim>\<open>while( curParent ) { ... }\<close> and the \<^verbatim>\<open>return\<close> after it. After the loop a
  round trip message returns \<^verbatim>\<open>undefined\<close>, and for any other message the function ends,
  which returns \<^verbatim>\<open>undefined\<close> as well.
\<close>

partial_function (option) bubble ::
  "world \<Rightarrow> message \<Rightarrow> bool \<Rightarrow> view_id \<Rightarrow> view_id option \<Rightarrow> bool \<Rightarrow> event list
     \<Rightarrow> (event list \<times> outcome) option" where
  "bubble w msg isRoundTripMessage curChild curParent messageShouldBePassed tr =
     (case curParent of
        None \<Rightarrow> Some (tr, Returned JUndefined)
      | Some p \<Rightarrow>
         (case visit w msg isRoundTripMessage curChild p messageShouldBePassed of
            (evs, Return r) \<Rightarrow> Some (tr @ evs, Returned r)
          | (evs, Throw err) \<Rightarrow> Some (tr @ evs, Threw err)
          | (evs, Decided b) \<Rightarrow>
             if \<not> b then Some (tr @ evs, Returned JUndefined)
             else bubble w msg isRoundTripMessage p (parentView (w p)) b (tr @ evs)))"

text \<open>
  The two ways to call \<^verbatim>\<open>spawn\<close>: with the name of the message and the data, or with a
  message object, whose \<^verbatim>\<open>name\<close> may be undefined.
\<close>

datatype spawn_args =
    NameAndData string jsval
  | MessageObject "string option" jsval

text \<open>
  The body of \<^verbatim>\<open>spawn\<close> once the name is known: \<^verbatim>\<open>message.source = view\<close>, the default
  \<^verbatim>\<open>{}\<close> for undefined data, the call of \<^verbatim>\<open>this.trigger\<close>, and the loop, which starts
  with \<^verbatim>\<open>curChild = this\<close>, \<^verbatim>\<open>curParent = this._getParentView()\<close> and an undefined, hence
  falsy, \<^verbatim>\<open>messageShouldBePassed\<close>.
\<close>

definition start :: "world \<Rightarrow> view_id \<Rightarrow> string \<Rightarrow> jsval \<Rightarrow> (event list \<times> outcome) option" where
  "start w v n d =
     (let msg = \<lparr>name = n, data = (case d of JUndefined \<Rightarrow> JObj [] | _ \<Rightarrow> d), source = v\<rparr>
      in bubble w msg (isRoundTrip n) v (parentView (w v)) False
           [Triggered v (name msg) (data msg)])"

definition spawn :: "world \<Rightarrow> view_id \<Rightarrow> spawn_args \<Rightarrow> (event list \<times> outcome) option" where
  "spawn w v args =
     (case args of
        NameAndData n d \<Rightarrow> start w v n d
      | MessageObject None d \<Rightarrow> Some ([], Threw UndefinedMessageName)
      | MessageObject (Some n) d \<Rightarrow> start w v n d)"

subsection \<open>Notions used to state the properties\<close>

text \<open>
  The ancestor \<open>p\<close> does not handle the message that its child \<open>c\<close> hands to it: it has no
  \<^verbatim>\<open>onMessages\<close> object, or the search of the hash ends with \<^verbatim>\<open>null\<close>.
\<close>

definition no_handler :: "world \<Rightarrow> message \<Rightarrow> view_id \<Rightarrow> view_id \<Rightarrow> bool" where
  "no_handler w msg c p =
     (case onMessages (w p) of
        None \<Rightarrow> True
      | Some hash \<Rightarrow>
         (case getValueOfBestMatchingHashEntry hash msg (w p) c of
            Inr HNull \<Rightarrow> True
          | _ \<Rightarrow> False))"

text \<open>
  \<open>unhandled_chain w msg c cp ps\<close>: the views that \<^verbatim>\<open>_getParentView\<close> yields one after the
  other, starting with \<open>cp\<close>, are the views of the list \<open>ps\<close>, the last of them has no
  parent, and none of them handles the message.
\<close>

fun unhandled_chain ::
  "world \<Rightarrow> message \<Rightarrow> view_id \<Rightarrow> view_id option \<Rightarrow> view_id list \<Rightarrow> bool" where
  "unhandled_chain w msg c None [] = True"
| "unhandled_chain w msg c (Some p) (q # qs) =
     (p = q \<and> no_handler w msg c p \<and> unhandled_chain w msg p (parentView (w p)) qs)"
| "unhandled_chain w msg c None (q # qs) = False"
| "unhandled_chain w msg c (Some p) [] = False"

text \<open>An event of a handler call carries the data and the name of \<open>msg\<close>.\<close>

fun carries :: "message \<Rightarrow> event \<Rightarrow> bool" where
  "carries msg (Invoked p d s n) = (d = data msg \<and> n = name msg)"
| "carries msg (Triggered v n d) = True"
| "carries msg (Consulted p) = True"

text \<open>The number of characters of an event name that are not the wildcard.\<close>

definition nonWildcardCharacters :: "string \<Rightarrow> nat" where
  "nonWildcardCharacters evName = length (filter (\<lambda>c. c \<noteq> CHR ''*'') evName)"

subsection \<open>The views of the test suite\<close>

text \<open>
  A view to which \<^verbatim>\<open>Backbone.Courier.add\<close> was applied and nothing else, and the
  fixture of the tests: \<open>child\<close> in \<open>parent\<close> in \<open>grandparent\<close>, extended by a view above.
\<close>

definition plain_view :: view where
  "plain_view =
     \<lparr>onMessages = None, passMessages = PValue JUndefined, parentView = None,
      subviews = None, childViewNamed = None, members = (\<lambda>_. Absent)\<rparr>"

definition child :: view_id where "child = 0"
definition parent :: view_id where "parent = 1"
definition grandparent :: view_id where "grandparent = 2"
definition greatgrandparent :: view_id where "greatgrandparent = 3"

definition fixture :: "view \<Rightarrow> view \<Rightarrow> view \<Rightarrow> world" where
  "fixture p g gg =
     (\<lambda>i. if i = child then plain_view\<lparr>parentView := Some parent\<rparr>
          else if i = parent then p\<lparr>parentView := Some grandparent\<rparr>
          else if i = grandparent then g\<lparr>parentView := Some greatgrandparent\<rparr>
          else gg\<lparr>parentView := None\<rparr>)"

text \<open>A handler that returns \<open>r\<close>.\<close>

definition returns :: "jsval \<Rightarrow> handler" where
  "returns r = (\<lambda>this d s n. Inr r)"

text \<open>A parent whose \<^verbatim>\<open>subviews\<close> hash names the child \<^verbatim>\<open>child1\<close>, as in the tests.\<close>

definition with_child1 :: view where
  "with_child1 = plain_view\<lparr>subviews := Some (\<lambda>n. if n = ''child1'' then Some child else None)\<rparr>"

text \<open>A message name of 1001 characters.\<close>

definition long_name :: string where
  "long_name = replicate 1001 (CHR ''a'')"

section \<open>Properties\<close>

subsection \<open>Unfolding the loop\<close>

lemma bubble_None: "bubble w msg rt c None flag tr = Some (tr, Returned JUndefined)"
  by (subst bubble.simps) simp

lemma bubble_Some:
  "bubble w msg rt c (Some p) flag tr =
     (case visit w msg rt c p flag of
        (evs, Return r) \<Rightarrow> Some (tr @ evs, Returned r)
      | (evs, Throw err) \<Rightarrow> Some (tr @ evs, Threw err)
      | (evs, Decided b) \<Rightarrow>
         if \<not> b then Some (tr @ evs, Returned JUndefined)
         else bubble w msg rt p (parentView (w p)) b (tr @ evs))"
  by (subst bubble.simps) simp

lemmas key_defs = delegateEventSplitter_def eventNameRegEx_test_def js_whitespace_def
  js_line_terminator_def js_word_char_def regexp_special_char_def

lemmas best_defs = getValueOfBestMatchingHashEntry_def sortedMatchingEntries_def push_def
  criterion_def replace_first_star_def getChildViewNamed_def

lemmas spawn_defs = spawn_def start_def isRoundTrip_def visit_def handler_stage_def
  pass_stage_def result_passMessages_def resolve_method_def isUndefined_def isBoolean_def
  isArray_def contains_def bubble_None bubble_Some

lemmas fixture_defs = fixture_def plain_view_def child_def parent_def grandparent_def
  greatgrandparent_def returns_def

lemma visit_ordinary:
  "handler_stage w msg False c p = (evs, None) \<Longrightarrow>
   visit w msg False c p flag =
     (case pass_stage w msg False p flag of
        Inl err \<Rightarrow> (evs, Throw err)
      | Inr b \<Rightarrow> (evs, Decided b))"
  by (simp add: visit_def)

subsection \<open>Round trip messages do not depend on \<^verbatim>\<open>passMessages\<close>\<close>

lemma getChildViewNamed_pass [simp]:
  "getChildViewNamed (v\<lparr>passMessages := x\<rparr>) n = getChildViewNamed v n"
  by (simp add: getChildViewNamed_def split: option.split)

lemma matchingEntries_pass [simp]:
  "matchingEntries (v\<lparr>passMessages := x\<rparr>) c n hash = matchingEntries v c n hash"
proof (induction hash)
  case Nil
  show ?case by simp
next
  case (Cons a hash)
  obtain key hv where a: "a = (key, hv)" by (cases a)
  show ?case unfolding a
    by (simp add: Cons.IH split: option.split sum.split bool.split prod.split)
qed

lemma getValue_pass [simp]:
  "getValueOfBestMatchingHashEntry hash msg (v\<lparr>passMessages := x\<rparr>) c
   = getValueOfBestMatchingHashEntry hash msg v c"
  by (simp add: getValueOfBestMatchingHashEntry_def sortedMatchingEntries_def)

lemma resolve_method_pass [simp]:
  "resolve_method (v\<lparr>passMessages := x\<rparr>) hv = resolve_method v hv"
  by (simp add: resolve_method_def split: hash_value.split)

lemma handler_stage_pass:
  "handler_stage (\<lambda>i. (w i)\<lparr>passMessages := pm i\<rparr>) msg rt c p = handler_stage w msg rt c p"
  by (simp add: handler_stage_def cong: option.case_cong sum.case_cong hash_value.case_cong)

lemma visit_round_trip_pass:
  "visit (\<lambda>i. (w i)\<lparr>passMessages := pm i\<rparr>) msg True c p flag = visit w msg True c p flag"
  by (simp add: visit_def handler_stage_pass pass_stage_def split: prod.split option.split)

lemma bubble_pass_forth:
  assumes run: "bubble W msg0 rt0 c0 cp0 flag0 tr0 = Some y0" and rt: "rt0"
  shows "bubble (\<lambda>i. (W i)\<lparr>passMessages := pm i\<rparr>) msg0 rt0 c0 cp0 flag0 tr0 = Some y0"
proof -
  have "rt0 \<longrightarrow> bubble (\<lambda>i. (W i)\<lparr>passMessages := pm i\<rparr>) msg0 rt0 c0 cp0 flag0 tr0 = Some y0"
  proof (rule bubble.raw_induct
      [where P = "\<lambda>w msg rt c cp flag tr y.
                    rt \<longrightarrow> bubble (\<lambda>i. (w i)\<lparr>passMessages := pm i\<rparr>) msg rt c cp flag tr = Some y",
        OF _ run])
    fix bubble' w msg rt c cp flag tr y
    assume IH: "\<And>w msg rt c cp flag tr y. bubble' w msg rt c cp flag tr = Some y \<Longrightarrow>
                  rt \<longrightarrow> bubble (\<lambda>i. (w i)\<lparr>passMessages := pm i\<rparr>) msg rt c cp flag tr = Some y"
      and body: "(case cp of
                    None \<Rightarrow> Some (tr, Returned JUndefined)
                  | Some p \<Rightarrow>
                     (case visit w msg rt c p flag of
                        (evs, Return r) \<Rightarrow> Some (tr @ evs, Returned r)
                      | (evs, Throw err) \<Rightarrow> Some (tr @ evs, Threw err)
                      | (evs, Decided b) \<Rightarrow>
                         if \<not> b then Some (tr @ evs, Returned JUndefined)
                         else bubble' w msg rt p (parentView (w p)) b (tr @ evs))) = Some y"
    show "rt \<longrightarrow> bubble (\<lambda>i. (w i)\<lparr>passMessages := pm i\<rparr>) msg rt c cp flag tr = Some y"
    proof
      assume rt: rt
      show "bubble (\<lambda>i. (w i)\<lparr>passMessages := pm i\<rparr>) msg rt c cp flag tr = Some y"
      proof (cases cp)
        case None
        with body show ?thesis by (simp add: bubble_None)
      next
        case (Some p)
        obtain evs s where v: "visit w msg rt c p flag = (evs, s)"
          by (cases "visit w msg rt c p flag")
        show ?thesis
        proof (cases s)
          case (Return r)
          with body Some v rt show ?thesis by (simp add: bubble_Some visit_round_trip_pass)
        next
          case (Throw err)
          with body Some v rt show ?thesis by (simp add: bubble_Some visit_round_trip_pass)
        next
          case (Decided b)
          show ?thesis
          proof (cases b)
            case False
            with body Some v rt Decided show ?thesis
              by (simp add: bubble_Some visit_round_trip_pass)
          next
            case True
            with body Some v Decided
            have "bubble' w msg rt p (parentView (w p)) b (tr @ evs) = Some y" by simp
            from IH[OF this] rt
            have "bubble (\<lambda>i. (w i)\<lparr>passMessages := pm i\<rparr>) msg rt p (parentView (w p)) b (tr @ evs)
                  = Some y" by simp
            with Some v rt Decided True show ?thesis
              by (simp add: bubble_Some visit_round_trip_pass)
          qed
        qed
      qed
    qed
  qed
  with rt show ?thesis by simp
qed

lemma bubble_round_trip_pass:
  "bubble (\<lambda>i. (w i)\<lparr>passMessages := pm i\<rparr>) msg True c cp flag tr
   = bubble w msg True c cp flag tr"
proof (cases "bubble w msg True c cp flag tr")
  case (Some y)
  then show ?thesis by (simp add: bubble_pass_forth)
next
  case None
  have restore: "(\<lambda>i. ((w i)\<lparr>passMessages := pm i\<rparr>)\<lparr>passMessages := passMessages (w i)\<rparr>) = w"
    by (rule ext) simp
  show ?thesis
  proof (cases "bubble (\<lambda>i. (w i)\<lparr>passMessages := pm i\<rparr>) msg True c cp flag tr")
    case None
    with \<open>bubble w msg True c cp flag tr = None\<close> show ?thesis by simp
  next
    case (Some y)
    from bubble_pass_forth[OF Some, of "\<lambda>i. passMessages (w i)"]
    have "bubble w msg True c cp flag tr = Some y" by (simp add: restore)
    with None show ?thesis by simp
  qed
qed

subsection \<open>A chain of ancestors without a handler\<close>

lemma handler_stage_no_handler:
  "no_handler w msg c p \<Longrightarrow>
   handler_stage w msg rt c p = (if onMessages (w p) = None then [] else [Consulted p], None)"
  by (auto simp: no_handler_def handler_stage_def split: option.splits sum.splits hash_value.splits)

lemma bubble_unhandled_chain:
  "unhandled_chain w msg c cp ps \<Longrightarrow>
   bubble w msg True c cp flag tr
   = Some (tr @ map Consulted (filter (\<lambda>p. onMessages (w p) \<noteq> None) ps), Returned JUndefined)"
proof (induction ps arbitrary: c cp flag tr)
  case Nil
  then show ?case by (cases cp) (simp_all add: bubble_None)
next
  case (Cons q qs)
  from Cons.prems obtain p where "cp = Some p" by (cases cp) simp_all
  with Cons.prems have cp: "cp = Some q" and nh: "no_handler w msg c q"
    and rest: "unhandled_chain w msg q (parentView (w q)) qs" by auto
  have v: "visit w msg True c q flag
           = (if onMessages (w q) = None then [] else [Consulted q], Decided True)"
    by (simp add: visit_def handler_stage_no_handler[OF nh] pass_stage_def)
  show ?case
    by (cases "onMessages (w q)") (simp_all add: cp bubble_Some v Cons.IH[OF rest])
qed

subsection \<open>The message stays as it was spawned\<close>

lemma handler_stage_carries:
  "handler_stage w msg rt c p = (evs, s) \<Longrightarrow> list_all (carries msg) evs"
  by (auto simp: handler_stage_def split: option.splits sum.splits hash_value.splits if_splits)

lemma visit_carries: "visit w msg rt c p flag = (evs, s) \<Longrightarrow> list_all (carries msg) evs"
  by (auto simp: visit_def split: prod.splits option.splits sum.splits dest: handler_stage_carries)

lemma bubble_carries:
  assumes run: "bubble w0 msg0 rt0 c0 cp0 flag0 tr0 = Some y0"
    and start: "list_all (carries msg0) tr0"
  shows "list_all (carries msg0) (fst y0)"
proof -
  have "list_all (carries msg0) tr0 \<longrightarrow> list_all (carries msg0) (fst y0)"
  proof (rule bubble.raw_induct
      [where P = "\<lambda>w msg rt c cp flag tr y.
                    list_all (carries msg) tr \<longrightarrow> list_all (carries msg) (fst y)",
        OF _ run])
    fix bubble' w msg rt c cp flag tr y
    assume IH: "\<And>w msg rt c cp flag tr y. bubble' w msg rt c cp flag tr = Some y \<Longrightarrow>
                  list_all (carries msg) tr \<longrightarrow> list_all (carries msg) (fst y)"
      and body: "(case cp of
                    None \<Rightarrow> Some (tr, Returned JUndefined)
                  | Some p \<Rightarrow>
                     (case visit w msg rt c p flag of
                        (evs, Return r) \<Rightarrow> Some (tr @ evs, Returned r)
                      | (evs, Throw err) \<Rightarrow> Some (tr @ evs, Threw err)
                      | (evs, Decided b) \<Rightarrow>
                         if \<not> b then Some (tr @ evs, Returned JUndefined)
                         else bubble' w msg rt p (parentView (w p)) b (tr @ evs))) = Some y"
    show "list_all (carries msg) tr \<longrightarrow> list_all (carries msg) (fst y)"
    proof
      assume tr: "list_all (carries msg) tr"
      show "list_all (carries msg) (fst y)"
      proof (cases cp)
        case None
        with body tr show ?thesis by auto
      next
        case (Some p)
        obtain evs s where v: "visit w msg rt c p flag = (evs, s)"
          by (cases "visit w msg rt c p flag")
        from visit_carries[OF v] tr have ext: "list_all (carries msg) (tr @ evs)" by simp
        show ?thesis
        proof (cases s)
          case (Return r)
          with body Some v ext show ?thesis by auto
        next
          case (Throw err)
          with body Some v ext show ?thesis by auto
        next
          case (Decided b)
          show ?thesis
          proof (cases b)
            case False
            with body Some v ext Decided show ?thesis by auto
          next
            case True
            with body Some v Decided
            have "bubble' w msg rt p (parentView (w p)) b (tr @ evs) = Some y" by simp
            from IH[OF this] ext show ?thesis by simp
          qed
        qed
      qed
    qed
  qed
  with start show ?thesis by simp
qed

subsection \<open>The first entry after sorting\<close>

lemma hd_sort_key_least:
  assumes "sort_key f xs = e # es" and "x \<in> set xs"
  shows "f e \<le> f x"
proof -
  have "sorted (map f (sort_key f xs))" by (rule sorted_sort_key)
  with assms(1) have "\<forall>y\<in>set es. f e \<le> f y" by simp
  moreover from assms have "x \<in> set (e # es)" by (metis set_sort)
  ultimately show ?thesis by auto
qed

lemma length_replace_first_star: "length (replace_first_star s) \<le> length s"
proof -
  have "length (takeWhile (\<lambda>c. c \<noteq> CHR ''*'') s) + length (dropWhile (\<lambda>c. c \<noteq> CHR ''*'') s)
        = length s"
    by (metis length_append takeWhile_dropWhile_id)
  then show ?thesis by (simp add: replace_first_star_def)
qed

lemma criterion_qualified: "subviewName e \<noteq> [] \<Longrightarrow> criterion e \<le> - 1000"
  by (simp add: criterion_def Let_def)

lemma criterion_unqualified:
  "subviewName e = [] \<Longrightarrow> length (eventName e) < 1000 \<Longrightarrow> - 1000 < criterion e"
  using length_replace_first_star[of "eventName e"] by (simp add: criterion_def Let_def)

lemma regex_match_replicate: "p \<noteq> CHR ''*'' \<Longrightarrow> regex_match (replicate k p) (replicate k p)"
  by (induction k) simp_all

lemma regex_match_star_replicate: "js_word_char a \<Longrightarrow> regex_match ''*'' (replicate k a)"
  by (induction k) simp_all

lemma split_long_name: "delegateEventSplitter long_name = Some (long_name, [])"
  by (simp add: delegateEventSplitter_def long_name_def takeWhile_replicate dropWhile_replicate
      js_whitespace_def)

lemma test_long_name: "eventNameRegEx_test long_name long_name = Inr True"
  by (simp add: eventNameRegEx_test_def long_name_def list_ex_iff regexp_special_char_def
      regex_match_replicate)

lemma test_star_long_name: "eventNameRegEx_test ''*'' long_name = Inr True"
  unfolding long_name_def
  by (simp add: eventNameRegEx_test_def regexp_special_char_def js_word_char_def
      regex_match_star_replicate del: regex_match.simps)

lemma criterion_long_name:
  "criterion \<lparr>eventName = long_name, subviewName = [], hvalue = hv\<rparr> = - 1001"
  by (simp add: criterion_def replace_first_star_def long_name_def takeWhile_replicate
      dropWhile_replicate)


lemma split_star_child1: "delegateEventSplitter ''* child1'' = Some (''*'', ''child1'')"
  by (simp add: key_defs)

lemma with_child1_child1: "getChildViewNamed with_child1 ''child1'' = Inr (Some child)"
  by (simp add: getChildViewNamed_def with_child1_def plain_view_def)

lemma matching_long_name:
  "matchingEntries with_child1 child long_name
     [(''* child1'', HMethodName ''qualified''), (long_name, HMethodName ''unqualified'')]
   = Inr [\<lparr>eventName = ''*'', subviewName = ''child1'', hvalue = HMethodName ''qualified''\<rparr>,
          \<lparr>eventName = long_name, subviewName = [], hvalue = HMethodName ''unqualified''\<rparr>]"
  by (simp add: split_star_child1 split_long_name test_long_name test_star_long_name
      with_child1_child1 push_def)

section \<open>The claims\<close>

subsection \<open>C1: a round trip message returns the value of the first handler\<close>

text \<open>
  C1. The message is a round trip message and the ancestor \<open>p\<close> that is visited has an
  \<^verbatim>\<open>onMessages\<close> hash whose best matching entry is not \<^verbatim>\<open>null\<close> and resolves to a
  function. When that function returns \<open>r\<close>, which may be \<^verbatim>\<open>undefined\<close>, the loop
  returns \<open>r\<close> at once: the search of the hash of \<open>p\<close> and the call of the handler are
  the only events added, so no hash of a higher ancestor is searched.
\<close>

theorem C1_round_trip:
  assumes "isRoundTrip (name msg)"
    and "onMessages (w p) = Some hash"
    and "getValueOfBestMatchingHashEntry hash msg (w p) c = Inr hv"
    and "hv \<noteq> HNull"
    and "resolve_method (w p) hv = Inr method"
    and "method p (data msg) (source msg) (name msg) = Inr r"
  shows "bubble w msg (isRoundTrip (name msg)) c (Some p) flag tr
         = Some (tr @ [Consulted p, Invoked p (data msg) (source msg) (name msg)], Returned r)"
  using assms by (cases hv) (simp_all add: bubble_Some visit_def handler_stage_def)

text \<open>
  C1 at the fixture of the tests: parent and grandparent both handle \<^verbatim>\<open>giveInfo!\<close>, the
  handler of the parent returns \<^verbatim>\<open>undefined\<close>, and the grandparent is not reached.
\<close>

theorem C1_witness:
  "bubble (fixture (plain_view\<lparr>onMessages := Some [(''giveInfo!'', HFunction (returns JUndefined))]\<rparr>)
                   (plain_view\<lparr>onMessages := Some [(''giveInfo!'', HFunction (returns (JStr ''info'')))]\<rparr>)
                   plain_view)
          \<lparr>name = ''giveInfo!'', data = JObj [], source = child\<rparr> (isRoundTrip ''giveInfo!'')
          child (Some parent) False [Triggered child ''giveInfo!'' (JObj [])]
   = Some ([Triggered child ''giveInfo!'' (JObj []), Consulted parent,
            Invoked parent (JObj []) child ''giveInfo!''], Returned JUndefined)"
proof -
  let ?w = "fixture (plain_view\<lparr>onMessages := Some [(''giveInfo!'', HFunction (returns JUndefined))]\<rparr>)
                   (plain_view\<lparr>onMessages := Some [(''giveInfo!'', HFunction (returns (JStr ''info'')))]\<rparr>)
                   plain_view"
  let ?msg = "\<lparr>name = ''giveInfo!'', data = JObj [], source = child\<rparr>"
  have rt: "isRoundTrip (name ?msg)" by (simp add: isRoundTrip_def)
  have tab: "onMessages (?w parent) = Some [(''giveInfo!'', HFunction (returns JUndefined))]"
    by (simp add: fixture_defs)
  have best: "getValueOfBestMatchingHashEntry [(''giveInfo!'', HFunction (returns JUndefined))]
                ?msg (?w parent) child = Inr (HFunction (returns JUndefined))"
    by (simp add: key_defs best_defs)
  have res: "resolve_method (?w parent) (HFunction (returns JUndefined)) = Inr (returns JUndefined)"
    by (simp add: resolve_method_def)
  have call: "returns JUndefined parent (data ?msg) (source ?msg) (name ?msg) = Inr JUndefined"
    by (simp add: returns_def)
  from C1_round_trip[where w = ?w and p = parent and msg = ?msg and c = child and flag = False
        and tr = "[Triggered child ''giveInfo!'' (JObj [])]", OF rt tab best _ res call]
  show ?thesis by simp
qed

subsection \<open>C2: specificity among entries of one tier\<close>

text \<open>
  C2. Both keys match \<^verbatim>\<open>message1\<close> and neither has a subview qualifier. The key
  \<^verbatim>\<open>messag*\<close> has six characters that are not wildcards, the key \<^verbatim>\<open>m*s*a*e*\<close> has
  four, and the function returns the value of \<^verbatim>\<open>m*s*a*e*\<close>: only the first wildcard
  is removed before the characters are counted.
\<close>

theorem C2_first_wildcard_only:
  "getValueOfBestMatchingHashEntry
     [(''messag*'', HMethodName ''h2''), (''m*s*a*e*'', HMethodName ''h1'')]
     \<lparr>name = ''message1'', data = JObj [], source = child\<rparr> plain_view child
     = Inr (HMethodName ''h1'')
   \<and> nonWildcardCharacters ''m*s*a*e*'' = 4 \<and> nonWildcardCharacters ''messag*'' = 6"
  by (simp add: key_defs best_defs nonWildcardCharacters_def)

subsection \<open>C3: the source that a handler receives\<close>

text \<open>
  C3. The child spawns \<^verbatim>\<open>message1\<close>, the parent passes it on and the grandparent handles
  it. The handler of the grandparent is called with the child as the source, not with the
  parent that passed the message on.
\<close>

theorem C3_source_stays_spawner:
  "spawn (fixture (plain_view\<lparr>passMessages := PValue (JBool True)\<rparr>)
                  (plain_view\<lparr>onMessages := Some [(''message1'', HFunction (returns JUndefined))]\<rparr>)
                  plain_view)
         child (NameAndData ''message1'' (JObj [(''firstName'', JStr ''Backbone'')]))
   = Some ([Triggered child ''message1'' (JObj [(''firstName'', JStr ''Backbone'')]),
            Consulted grandparent,
            Invoked grandparent (JObj [(''firstName'', JStr ''Backbone'')]) child ''message1''],
           Returned JUndefined)"
  by (simp add: spawn_defs key_defs best_defs fixture_defs)

subsection \<open>C4: an ancestor without \<^verbatim>\<open>passMessages\<close>\<close>

text \<open>
  C4. The parent passes \<^verbatim>\<open>message1\<close> on, the grandparent has no \<^verbatim>\<open>passMessages\<close>, and
  the message still reaches the handler of the view above the grandparent. When the
  parent has no \<^verbatim>\<open>passMessages\<close> either, the message stops at the parent.
\<close>

theorem C4_stale_flag:
  "spawn (fixture (plain_view\<lparr>passMessages := PValue (JBool True)\<rparr>)
                  plain_view
                  (plain_view\<lparr>onMessages := Some [(''message1'', HFunction (returns JUndefined))]\<rparr>))
         child (NameAndData ''message1'' JUndefined)
   = Some ([Triggered child ''message1'' (JObj []),
            Consulted greatgrandparent,
            Invoked greatgrandparent (JObj []) child ''message1''],
           Returned JUndefined)
  \<and> spawn (fixture plain_view
                  plain_view
                  (plain_view\<lparr>onMessages := Some [(''message1'', HFunction (returns JUndefined))]\<rparr>))
         child (NameAndData ''message1'' JUndefined)
   = Some ([Triggered child ''message1'' (JObj [])], Returned JUndefined)"
  by (simp add: spawn_defs key_defs best_defs fixture_defs)

subsection \<open>C5: entries with a subview qualifier\<close>

text \<open>
  C5, as the code has it. Among the entries that match, one with a subview qualifier is
  selected whenever there is one, provided that the event name of every matching entry
  without a qualifier has fewer than 1000 characters.
\<close>

theorem C5_qualified_outranks_short_unqualified:
  assumes "matchingEntries v sourceView (name msg) hash = Inr ms"
    and "q \<in> set ms" and "subviewName q \<noteq> []"
    and "\<forall>u \<in> set ms. subviewName u = [] \<longrightarrow> length (eventName u) < 1000"
  shows "\<exists>e es. sortedMatchingEntries hash msg v sourceView = Inr (e # es) \<and>
           e \<in> set ms \<and> subviewName e \<noteq> [] \<and>
           getValueOfBestMatchingHashEntry hash msg v sourceView = Inr (hvalue e)"
proof (cases "length ms > 1")
  case False
  with assms(2) have "ms = [q]" by (cases ms) auto
  with assms show ?thesis
    by (simp add: getValueOfBestMatchingHashEntry_def sortedMatchingEntries_def)
next
  case True
  from assms(2) have "sort_key criterion ms \<noteq> []" by (metis empty_iff list.set(1) set_sort)
  then obtain e es where srt: "sort_key criterion ms = e # es"
    by (cases "sort_key criterion ms") auto
  then have e: "e \<in> set ms" by (metis list.set_intros(1) set_sort)
  from hd_sort_key_least[OF srt assms(2)] criterion_qualified[OF assms(3)]
  have "criterion e \<le> - 1000" by simp
  with criterion_unqualified[of e] assms(4) e have "subviewName e \<noteq> []" by fastforce
  with e srt True assms(1) show ?thesis
    by (simp add: getValueOfBestMatchingHashEntry_def sortedMatchingEntries_def)
qed

text \<open>
  C5 at the parent of the tests, with the entries \<^verbatim>\<open>selected child1\<close>, \<^verbatim>\<open>selected\<close> and
  \<^verbatim>\<open>* child1\<close> and a message \<^verbatim>\<open>selected\<close> from \<^verbatim>\<open>child1\<close>.
\<close>

theorem C5_witness:
  "\<exists>e es.
      sortedMatchingEntries
        [(''selected child1'', HMethodName ''a''), (''selected'', HMethodName ''b''),
         (''* child1'', HMethodName ''c'')]
        \<lparr>name = ''selected'', data = JObj [], source = child\<rparr> with_child1 child
      = Inr (e # es) \<and>
      subviewName e \<noteq> [] \<and>
      getValueOfBestMatchingHashEntry
        [(''selected child1'', HMethodName ''a''), (''selected'', HMethodName ''b''),
         (''* child1'', HMethodName ''c'')]
        \<lparr>name = ''selected'', data = JObj [], source = child\<rparr> with_child1 child
      = Inr (hvalue e)"
proof -
  let ?ms = "[\<lparr>eventName = ''selected'', subviewName = ''child1'', hvalue = HMethodName ''a''\<rparr>,
              \<lparr>eventName = ''selected'', subviewName = [], hvalue = HMethodName ''b''\<rparr>,
              \<lparr>eventName = ''*'', subviewName = ''child1'', hvalue = HMethodName ''c''\<rparr>]"
  let ?msg = "\<lparr>name = ''selected'', data = JObj [], source = child\<rparr>"
  have m: "matchingEntries with_child1 child (name ?msg)
             [(''selected child1'', HMethodName ''a''), (''selected'', HMethodName ''b''),
              (''* child1'', HMethodName ''c'')] = Inr ?ms"
    by (simp add: key_defs with_child1_child1 push_def)
  have q: "\<lparr>eventName = ''*'', subviewName = ''child1'', hvalue = HMethodName ''c''\<rparr> \<in> set ?ms"
    by simp
  have short: "\<forall>u \<in> set ?ms. subviewName u = [] \<longrightarrow> length (eventName u) < 1000"
    by simp
  have has_qualifier:
    "subviewName \<lparr>eventName = ''*'', subviewName = ''child1'', hvalue = HMethodName ''c''\<rparr> \<noteq> []"
    by simp
  from C5_qualified_outranks_short_unqualified[OF m q has_qualifier short] show ?thesis by blast
qed

text \<open>
  C5 does not hold for every event name: for a message name of 1001 characters, the
  entry without a qualifier whose event name is that name is selected, although the
  entry \<^verbatim>\<open>* child1\<close> matches as well.
\<close>

theorem C5_long_unqualified_wins:
  "matchingEntries with_child1 child long_name
     [(''* child1'', HMethodName ''qualified''), (long_name, HMethodName ''unqualified'')]
   = Inr [\<lparr>eventName = ''*'', subviewName = ''child1'', hvalue = HMethodName ''qualified''\<rparr>,
          \<lparr>eventName = long_name, subviewName = [], hvalue = HMethodName ''unqualified''\<rparr>]
   \<and> getValueOfBestMatchingHashEntry
     [(''* child1'', HMethodName ''qualified''), (long_name, HMethodName ''unqualified'')]
     \<lparr>name = long_name, data = JObj [], source = child\<rparr> with_child1 child
   = Inr (HMethodName ''unqualified'')"
proof -
  have crit: "criterion \<lparr>eventName = ''*'', subviewName = ''child1'',
                          hvalue = HMethodName ''qualified''\<rparr> = - 1000"
    by (simp add: criterion_def replace_first_star_def)
  show ?thesis
    by (simp add: matching_long_name getValueOfBestMatchingHashEntry_def
        sortedMatchingEntries_def crit criterion_long_name del: matchingEntries.simps)
qed

subsection \<open>C6: a message that is passed on\<close>

text \<open>
  C6, as the code has it. Every handler that is called while a message bubbles receives
  the name and the data with which the message was spawned: a message that an ancestor
  passes on arrives under the same name with the same data.
\<close>

theorem C6_forwarded_message_keeps_name_and_payload:
  assumes "spawn w v (NameAndData n d) = Some (tr, out)"
  shows "list_all (carries \<lparr>name = n, data = (case d of JUndefined \<Rightarrow> JObj [] | _ \<Rightarrow> d),
                             source = v\<rparr>) tr"
proof -
  let ?msg = "\<lparr>name = n, data = (case d of JUndefined \<Rightarrow> JObj [] | _ \<Rightarrow> d), source = v\<rparr>"
  from assms have "bubble w ?msg (isRoundTrip n) v (parentView (w v)) False
                     [Triggered v (name ?msg) (data ?msg)] = Some (tr, out)"
    by (simp add: spawn_def start_def)
  from bubble_carries[OF this] show ?thesis by simp
qed

text \<open>
  C6 at the fixture of the tests: the parent passes \<^verbatim>\<open>message1\<close> on and the handler of
  the grandparent receives the name and the data of the child.
\<close>

theorem C6_witness:
  "spawn (fixture (plain_view\<lparr>passMessages := PValue (JArr [JStr ''message1''])\<rparr>)
                  (plain_view\<lparr>onMessages := Some [(''message1'', HFunction (returns JUndefined))]\<rparr>)
                  plain_view)
         child (NameAndData ''message1'' (JObj [(''firstName'', JStr ''Backbone'')]))
   = Some ([Triggered child ''message1'' (JObj [(''firstName'', JStr ''Backbone'')]),
            Consulted grandparent,
            Invoked grandparent (JObj [(''firstName'', JStr ''Backbone'')]) child ''message1''],
           Returned JUndefined)
   \<and> list_all (carries \<lparr>name = ''message1'', data = JObj [(''firstName'', JStr ''Backbone'')],
                           source = child\<rparr>)
        [Triggered child ''message1'' (JObj [(''firstName'', JStr ''Backbone'')]),
         Consulted grandparent,
         Invoked grandparent (JObj [(''firstName'', JStr ''Backbone'')]) child ''message1'']"
proof -
  have run:
    "spawn (fixture (plain_view\<lparr>passMessages := PValue (JArr [JStr ''message1''])\<rparr>)
                  (plain_view\<lparr>onMessages := Some [(''message1'', HFunction (returns JUndefined))]\<rparr>)
                  plain_view)
         child (NameAndData ''message1'' (JObj [(''firstName'', JStr ''Backbone'')]))
     = Some ([Triggered child ''message1'' (JObj [(''firstName'', JStr ''Backbone'')]),
            Consulted grandparent,
            Invoked grandparent (JObj [(''firstName'', JStr ''Backbone'')]) child ''message1''],
           Returned JUndefined)"
    by (simp add: spawn_defs key_defs best_defs fixture_defs)
  from C6_forwarded_message_keeps_name_and_payload[OF run] run show ?thesis by simp
qed

text \<open>
  C6 does not hold as stated: a \<^verbatim>\<open>passMessages\<close> hash with the entry
  \<^verbatim>\<open>"message1" : "message2"\<close> does not rename the message. The call of \<^verbatim>\<open>spawn\<close> throws
  the \<^verbatim>\<open>TypeError\<close> and the handlers of the grandparent are not called.
\<close>

theorem C6_rename_directive_throws:
  "spawn (fixture (plain_view\<lparr>passMessages := PValue (JObj [(''message1'', JStr ''message2'')])\<rparr>)
                  (plain_view\<lparr>onMessages := Some [(''message2'', HFunction (returns JUndefined)),
                                                    (''message1'', HFunction (returns JUndefined))]\<rparr>)
                  plain_view)
         child (NameAndData ''message1'' (JObj [(''firstName'', JStr ''Backbone'')]))
   = Some ([Triggered child ''message1'' (JObj [(''firstName'', JStr ''Backbone'')])],
           Threw PassMessagesTypeError)"
  by (simp add: spawn_defs key_defs best_defs fixture_defs)

subsection \<open>C7: round trip messages and \<^verbatim>\<open>passMessages\<close>\<close>

text \<open>
  C7. For a round trip message the result of the loop is the same whatever the
  \<^verbatim>\<open>passMessages\<close> properties of the views are, also when they are functions that throw
  or values of another shape; and when the ancestor \<open>p\<close> does not handle the message, the
  loop goes on with the parent of \<open>p\<close>.
\<close>

theorem C7_round_trip_ignores_passMessages:
  assumes "isRoundTrip (name msg)"
  shows "bubble (\<lambda>i. (w i)\<lparr>passMessages := pm i\<rparr>) msg (isRoundTrip (name msg)) c cp flag tr
         = bubble w msg (isRoundTrip (name msg)) c cp flag tr
       \<and> (handler_stage w msg (isRoundTrip (name msg)) c p = (evs, None) \<longrightarrow>
          bubble w msg (isRoundTrip (name msg)) c (Some p) flag tr
          = bubble w msg (isRoundTrip (name msg)) p (parentView (w p)) True (tr @ evs))"
  using assms by (simp add: bubble_round_trip_pass bubble_Some[of w msg True c p] visit_def pass_stage_def)

text \<open>
  C7 at the fixture of the tests: every \<^verbatim>\<open>passMessages\<close> is a function that throws, the
  parent has no handler, and \<^verbatim>\<open>giveInfo!\<close> is answered by the grandparent.
\<close>

theorem C7_witness:
  "bubble (\<lambda>i. (fixture plain_view
                    (plain_view\<lparr>onMessages := Some [(''giveInfo!'', HFunction (returns (JStr ''info'')))]\<rparr>)
                    plain_view i)\<lparr>passMessages := PFunction (Inl (UserError ''boom''))\<rparr>)
          \<lparr>name = ''giveInfo!'', data = JObj [], source = child\<rparr> (isRoundTrip ''giveInfo!'')
          child (Some parent) False []
   = Some ([Consulted grandparent, Invoked grandparent (JObj []) child ''giveInfo!''],
           Returned (JStr ''info''))"
proof -
  let ?w = "fixture plain_view
              (plain_view\<lparr>onMessages := Some [(''giveInfo!'', HFunction (returns (JStr ''info'')))]\<rparr>)
              plain_view"
  let ?msg = "\<lparr>name = ''giveInfo!'', data = JObj [], source = child\<rparr>"
  have rt: "isRoundTrip (name ?msg)" by (simp add: isRoundTrip_def)
  have unhandled: "handler_stage ?w ?msg (isRoundTrip (name ?msg)) child parent = ([], None)"
    by (simp add: handler_stage_def fixture_defs)
  have up: "parentView (?w parent) = Some grandparent"
    by (simp add: fixture_defs)
  have rest: "bubble ?w ?msg True parent (Some grandparent) True []
              = Some ([Consulted grandparent, Invoked grandparent (JObj []) child ''giveInfo!''],
                      Returned (JStr ''info''))"
    by (simp add: spawn_defs key_defs best_defs fixture_defs)
  from C7_round_trip_ignores_passMessages[where msg = ?msg and w = ?w and c = child
        and cp = "Some parent" and p = parent and flag = False and tr = "[]" and evs = "[]"
        and pm = "\<lambda>i. PFunction (Inl (UserError ''boom''))", OF rt]
    unhandled rt up rest
  show ?thesis by simp
qed

subsection \<open>C8: a round trip message that nobody handles\<close>

text \<open>
  C8. When the name of the message ends in \<^verbatim>\<open>!\<close>, the chain of ancestors of the spawning
  view is finite and none of them handles the message, \<^verbatim>\<open>spawn\<close> returns \<^verbatim>\<open>undefined\<close>.
  It calls no handler: apart from the trigger on the spawning view, the only events are
  the searches of the \<^verbatim>\<open>onMessages\<close> hashes.
\<close>

theorem C8_unhandled_round_trip_returns_undefined:
  assumes "isRoundTrip n"
    and "unhandled_chain w \<lparr>name = n, data = (case d of JUndefined \<Rightarrow> JObj [] | _ \<Rightarrow> d), source = v\<rparr>
           v (parentView (w v)) ps"
  shows "spawn w v (NameAndData n d)
         = Some (Triggered v n (case d of JUndefined \<Rightarrow> JObj [] | _ \<Rightarrow> d)
                 # map Consulted (filter (\<lambda>p. onMessages (w p) \<noteq> None) ps),
                 Returned JUndefined)"
  using assms by (simp add: spawn_def start_def bubble_unhandled_chain)

text \<open>
  C8 at the fixture of the tests, where the parent has a handler for another message.
\<close>

theorem C8_witness:
  "spawn (fixture (plain_view\<lparr>onMessages := Some [(''testMessage'', HFunction (returns JNull))]\<rparr>)
                  plain_view plain_view)
         child (NameAndData ''roundtripMessage!'' JUndefined)
   = Some ([Triggered child ''roundtripMessage!'' (JObj []), Consulted parent], Returned JUndefined)"
proof -
  let ?w = "fixture (plain_view\<lparr>onMessages := Some [(''testMessage'', HFunction (returns JNull))]\<rparr>)
                    plain_view plain_view"
  have rt: "isRoundTrip ''roundtripMessage!''" by (simp add: isRoundTrip_def)
  have chain: "unhandled_chain ?w
                 \<lparr>name = ''roundtripMessage!'',
                  data = (case JUndefined of JUndefined \<Rightarrow> JObj [] | _ \<Rightarrow> JUndefined),
                  source = child\<rparr>
                 child (parentView (?w child)) [parent, grandparent, greatgrandparent]"
    by (simp add: no_handler_def key_defs best_defs fixture_defs)
  from C8_unhandled_round_trip_returns_undefined[OF rt chain]
  show ?thesis by (simp add: fixture_defs)
qed

subsection \<open>C9: the \<^verbatim>\<open>TypeError\<close> for \<^verbatim>\<open>passMessages\<close>\<close>

text \<open>
  C9, as the code has it. For a message that is not a round trip message, at an ancestor
  whose handler part ended without an exception and whose \<^verbatim>\<open>passMessages\<close> resolves to
  \<open>pm\<close>: the visit throws the \<^verbatim>\<open>TypeError\<close> exactly when \<open>pm\<close> is not undefined, not a
  boolean and not an array, and then \<^verbatim>\<open>spawn\<close> ends with that error. A boolean and an
  array are accepted; a hash of keys and directives is not.
\<close>

theorem C9_TypeError_iff_not_boolean_nor_array:
  assumes "\<not> isRoundTrip (name msg)"
    and "handler_stage w msg (isRoundTrip (name msg)) c p = (evs, None)"
    and "result_passMessages (w p) = Inr pm"
  shows "(snd (visit w msg (isRoundTrip (name msg)) c p flag) = Throw PassMessagesTypeError)
         = (\<not> isUndefined pm \<and> \<not> isBoolean pm \<and> \<not> isArray pm)
       \<and> (\<not> isUndefined pm \<and> \<not> isBoolean pm \<and> \<not> isArray pm \<longrightarrow>
          bubble w msg (isRoundTrip (name msg)) c (Some p) flag tr
          = Some (tr @ evs, Threw PassMessagesTypeError))"
  using assms by (simp add: bubble_Some visit_ordinary pass_stage_def)

text \<open>
  C9 at the fixture of the tests, with a parent whose \<^verbatim>\<open>passMessages\<close> is a hash.
\<close>

theorem C9_witness:
  "snd (visit (fixture (plain_view\<lparr>passMessages := PValue (JObj [(''message1'', JStr ''.'')])\<rparr>)
                       plain_view plain_view)
          \<lparr>name = ''message1'', data = JObj [], source = child\<rparr> (isRoundTrip ''message1'')
          child parent False) = Throw PassMessagesTypeError
   \<and> bubble (fixture (plain_view\<lparr>passMessages := PValue (JObj [(''message1'', JStr ''.'')])\<rparr>)
                     plain_view plain_view)
          \<lparr>name = ''message1'', data = JObj [], source = child\<rparr> (isRoundTrip ''message1'')
          child (Some parent) False []
     = Some ([], Threw PassMessagesTypeError)"
proof -
  let ?w = "fixture (plain_view\<lparr>passMessages := PValue (JObj [(''message1'', JStr ''.'')])\<rparr>)
                    plain_view plain_view"
  let ?msg = "\<lparr>name = ''message1'', data = JObj [], source = child\<rparr>"
  have ordinary: "\<not> isRoundTrip (name ?msg)" by (simp add: isRoundTrip_def)
  have stage: "handler_stage ?w ?msg (isRoundTrip (name ?msg)) child parent = ([], None)"
    by (simp add: handler_stage_def fixture_defs)
  have pm: "result_passMessages (?w parent) = Inr (JObj [(''message1'', JStr ''.'')])"
    by (simp add: result_passMessages_def fixture_defs)
  from C9_TypeError_iff_not_boolean_nor_array[where msg = ?msg and w = ?w and c = child
        and p = parent and flag = False and tr = "[]", OF ordinary stage pm]
  show ?thesis by (simp add: isUndefined_def isBoolean_def isArray_def)
qed

text \<open>
  C9 does not hold as stated: a \<^verbatim>\<open>passMessages\<close> hash of keys and directives, here
  \<^verbatim>\<open>{ "message1" : "." }\<close>, is not accepted. \<^verbatim>\<open>spawn\<close> throws the \<^verbatim>\<open>TypeError\<close>.
\<close>

theorem C9_mapping_passMessages_throws:
  "spawn (fixture (plain_view\<lparr>passMessages := PValue (JObj [(''message1'', JStr ''.'')])\<rparr>)
                  (plain_view\<lparr>onMessages := Some [(''message1'', HFunction (returns JUndefined))]\<rparr>)
                  plain_view)
         child (NameAndData ''message1'' (JObj [(''firstName'', JStr ''Backbone'')]))
   = Some ([Triggered child ''message1'' (JObj [(''firstName'', JStr ''Backbone'')])],
           Threw PassMessagesTypeError)"
  by (simp add: spawn_defs key_defs best_defs fixture_defs)

subsection \<open>C10: \<^verbatim>\<open>passMessages\<close> as an array or a boolean\<close>

text \<open>
  C10. For a message that is not a round trip message, at an ancestor \<open>p\<close> whose handler
  part ended without an exception: when \<^verbatim>\<open>passMessages\<close> resolves to an array, the loop
  goes on with the parent of \<open>p\<close> if the array has an element equal to the name of the
  message, and ends otherwise; when it resolves to a boolean, the loop goes on if the
  boolean is true, and ends otherwise. Where the loop goes on, it does so with the same
  message: the name and the data are unchanged.
\<close>

theorem C10_array_and_boolean_passMessages:
  assumes "\<not> isRoundTrip (name msg)"
    and "handler_stage w msg (isRoundTrip (name msg)) c p = (evs, None)"
  shows "(result_passMessages (w p) = Inr (JArr xs) \<longrightarrow>
          bubble w msg (isRoundTrip (name msg)) c (Some p) flag tr
          = (if JStr (name msg) \<in> set xs
             then bubble w msg (isRoundTrip (name msg)) p (parentView (w p)) True (tr @ evs)
             else Some (tr @ evs, Returned JUndefined)))
       \<and> (result_passMessages (w p) = Inr (JBool b) \<longrightarrow>
          bubble w msg (isRoundTrip (name msg)) c (Some p) flag tr
          = (if b
             then bubble w msg (isRoundTrip (name msg)) p (parentView (w p)) True (tr @ evs)
             else Some (tr @ evs, Returned JUndefined)))"
  using assms
  by (simp add: bubble_Some visit_ordinary pass_stage_def isUndefined_def isBoolean_def
      isArray_def contains_def)

text \<open>
  C10 at the fixture of the tests: the array \<^verbatim>\<open>[ "mess*" ]\<close> does not pass \<^verbatim>\<open>message1\<close>
  on, and \<^verbatim>\<open>true\<close> passes it on to the grandparent.
\<close>

theorem C10_witness:
  "bubble (fixture (plain_view\<lparr>passMessages := PValue (JArr [JStr ''mess*''])\<rparr>)
                   (plain_view\<lparr>onMessages := Some [(''message1'', HFunction (returns JUndefined))]\<rparr>)
                   plain_view)
          \<lparr>name = ''message1'', data = JObj [], source = child\<rparr> (isRoundTrip ''message1'')
          child (Some parent) False []
   = Some ([], Returned JUndefined)
   \<and> bubble (fixture (plain_view\<lparr>passMessages := PFunction (Inr (JBool True))\<rparr>)
                   (plain_view\<lparr>onMessages := Some [(''message1'', HFunction (returns JUndefined))]\<rparr>)
                   plain_view)
          \<lparr>name = ''message1'', data = JObj [], source = child\<rparr> (isRoundTrip ''message1'')
          child (Some parent) False []
   = bubble (fixture (plain_view\<lparr>passMessages := PFunction (Inr (JBool True))\<rparr>)
                   (plain_view\<lparr>onMessages := Some [(''message1'', HFunction (returns JUndefined))]\<rparr>)
                   plain_view)
          \<lparr>name = ''message1'', data = JObj [], source = child\<rparr> (isRoundTrip ''message1'')
          parent (Some grandparent) True []"
proof -
  let ?g = "plain_view\<lparr>onMessages := Some [(''message1'', HFunction (returns JUndefined))]\<rparr>"
  let ?w1 = "fixture (plain_view\<lparr>passMessages := PValue (JArr [JStr ''mess*''])\<rparr>) ?g plain_view"
  let ?w2 = "fixture (plain_view\<lparr>passMessages := PFunction (Inr (JBool True))\<rparr>) ?g plain_view"
  let ?msg = "\<lparr>name = ''message1'', data = JObj [], source = child\<rparr>"
  have ordinary: "\<not> isRoundTrip (name ?msg)" by (simp add: isRoundTrip_def)
  have stage1: "handler_stage ?w1 ?msg (isRoundTrip (name ?msg)) child parent = ([], None)"
    by (simp add: handler_stage_def fixture_defs)
  have stage2: "handler_stage ?w2 ?msg (isRoundTrip (name ?msg)) child parent = ([], None)"
    by (simp add: handler_stage_def fixture_defs)
  have pm1: "result_passMessages (?w1 parent) = Inr (JArr [JStr ''mess*''])"
    by (simp add: result_passMessages_def fixture_defs)
  have pm2: "result_passMessages (?w2 parent) = Inr (JBool True)"
    by (simp add: result_passMessages_def fixture_defs)
  have up: "parentView (?w2 parent) = Some grandparent"
    by (simp add: fixture_defs)
  from C10_array_and_boolean_passMessages[where msg = ?msg and w = ?w1 and c = child
        and p = parent and flag = False and tr = "[]" and xs = "[JStr ''mess*'']", OF ordinary stage1]
       C10_array_and_boolean_passMessages[where msg = ?msg and w = ?w2 and c = child
        and p = parent and flag = False and tr = "[]" and b = True, OF ordinary stage2]
       pm1 pm2 up
  show ?thesis by simp
qed

end
